theory Spec2Isabelle
  imports Complex_Main "HOL-Library.AList" "HOL-Library.Sublist"
begin

section \<open>Telemetry recorder (src/utils/telemetry.ts)\<close>

text \<open>
  The recorder is a class with mutable fields; the model passes the object explicitly and
  every method returns the updated object.  JavaScript \<open>Map\<close>s keep insertion order and
  \<open>set\<close> on an existing key keeps the key's position, which is what \<open>AList.update\<close> does,
  so both tables are association lists.  Counters are JavaScript numbers that only ever
  hold non-negative integers (they start at 0 and change by \<open>++\<close>), modelled as \<open>nat\<close>;
  timestamps come from \<open>Date.now()\<close> and are integers.  The clock, the random draw of
  \<open>shouldCollect\<close> and the generated uuid are parameters of the operations.  The telemetry
  handler and the logger are sinks: the handler's calls are appended to the field
  \<open>handled\<close>, the logger's output is not observed.
\<close>

record RequestMetrics =
  requestId :: string
  http_method :: string
  path :: string
  startTime :: int
  endTime :: "int option"
  duration :: "int option"
  statusCode :: "int option"
  success :: "bool option"
  errorMessage :: "string option"
  errorType :: "string option"
  retryCount :: "int option"

text \<open>The \<open>Error\<close> object handed to \<open>endRequest\<close>: only \<open>message\<close> and \<open>name\<close> are read.\<close>

record JsError =
  error_message :: string
  error_name :: string

record TelemetryOptions =
  opt_enabled :: "bool option"
  opt_sampleRate :: "rat option"

record Telemetry =
  enabled :: bool
  sampleRate :: rat
  activeRequests :: "(string \<times> RequestMetrics) list"
  requestCount :: nat
  successCount :: nat
  errorCount :: nat
  totalDuration :: int
  errorTypes :: "(string \<times> nat) list"
  handled :: "RequestMetrics list"

text \<open>The constructor: \<open>options?.enabled ?? false\<close>, \<open>options?.sampleRate ?? 1\<close>, and the
  field initialisers of the class.\<close>

definition Telemetry_new :: "TelemetryOptions option \<Rightarrow> Telemetry" where
  "Telemetry_new options =
     \<lparr> enabled = (case options of None \<Rightarrow> False
                  | Some opts \<Rightarrow> (case opt_enabled opts of None \<Rightarrow> False | Some b \<Rightarrow> b)),
       sampleRate = (case options of None \<Rightarrow> 1
                  | Some opts \<Rightarrow> (case opt_sampleRate opts of None \<Rightarrow> 1 | Some r \<Rightarrow> r)),
       activeRequests = [],
       requestCount = 0,
       successCount = 0,
       errorCount = 0,
       totalDuration = 0,
       errorTypes = [],
       handled = [] \<rparr>"

text \<open>\<open>shouldCollect\<close>; \<open>draw\<close> is the value of \<open>Math.random()\<close>.\<close>

definition shouldCollect :: "Telemetry \<Rightarrow> rat \<Rightarrow> bool" where
  "shouldCollect t draw = (if \<not> enabled t then False else draw \<le> sampleRate t)"

subsection \<open>Path normalisation\<close>

definition is_digit :: "char \<Rightarrow> bool" where
  "is_digit c = (c \<in> set ''0123456789'')"

text \<open>\<open>[0-9a-f]\<close> under the \<open>i\<close> flag.\<close>

definition is_hex :: "char \<Rightarrow> bool" where
  "is_hex c = (c \<in> set ''0123456789abcdefABCDEF'')"

text \<open>A regular expression that is a fixed sequence of character classes matches at the
  start of a string when every class accepts the character at its position.\<close>

fun match_classes :: "(char \<Rightarrow> bool) list \<Rightarrow> string \<Rightarrow> bool" where
  "match_classes [] cs = True"
| "match_classes (p # ps) [] = False"
| "match_classes (p # ps) (c # cs) = (p c \<and> match_classes ps cs)"

definition dash :: "char \<Rightarrow> bool" where
  "dash c = (c = CHR ''-'')"

definition slash :: "char \<Rightarrow> bool" where
  "slash c = (c = CHR ''/'')"

text \<open>\<open>/\/[0-9a-f]{8}-[0-9a-f]{4}-[0-9a-f]{4}-[0-9a-f]{4}-[0-9a-f]{12}/\<close>: the slash and the
  36 classes behind it.\<close>

definition uuid_body :: "(char \<Rightarrow> bool) list" where
  "uuid_body = replicate 8 is_hex @ dash # replicate 4 is_hex @ dash #
     replicate 4 is_hex @ dash # replicate 4 is_hex @ dash # replicate 12 is_hex"

definition uuid_regex :: "(char \<Rightarrow> bool) list" where
  "uuid_regex = slash # uuid_body"

text \<open>\<open>.replace(uuid_regex /g, '/:id')\<close>: scan from the left; at a match emit the
  replacement and go on behind the match, otherwise copy one character.\<close>

function replace_uuids :: "string \<Rightarrow> string" where
  "replace_uuids [] = []"
| "replace_uuids (c # cs) =
     (if match_classes uuid_regex (c # cs)
      then ''/:id'' @ replace_uuids (drop 37 (c # cs))
      else c # replace_uuids cs)"
  by pat_completeness auto
termination
  by (relation "measure length") auto

text \<open>\<open>.replace(/\/\d+(?=\/|$)/g, '/:id')\<close>.  \<open>\d+\<close> is greedy; giving digits back cannot
  help the lookahead, because the character after a shorter run is a digit.  So the
  expression matches at a slash exactly when the maximal run of digits behind it is
  non-empty and is followed by a slash or by the end of the input.  The lookahead
  consumes nothing: the scan goes on at the character behind the digits.\<close>

function replace_numeric :: "string \<Rightarrow> string" where
  "replace_numeric [] = []"
| "replace_numeric (c # cs) =
     (let ds = takeWhile is_digit cs; rest = dropWhile is_digit cs
      in if c = CHR ''/'' \<and> ds \<noteq> [] \<and> (rest = [] \<or> hd rest = CHR ''/'')
         then ''/:id'' @ replace_numeric rest
         else c # replace_numeric cs)"
  by pat_completeness auto
termination
  by (relation "measure length") (auto simp: length_dropWhile_le less_Suc_eq_le)

definition normalizePath :: "string \<Rightarrow> string" where
  "normalizePath p =
     (if p = [] then []
      else let normalizedPath = (if hd p = CHR ''/'' then p else CHR ''/'' # p)
           in replace_numeric (replace_uuids normalizedPath))"

subsection \<open>Tracking\<close>

text \<open>\<open>String.prototype.toUpperCase\<close> on the ASCII letters (HTTP method names).\<close>

definition upper_char :: "char \<Rightarrow> char" where
  "upper_char c =
     (if c \<in> set ''abcdefghijklmnopqrstuvwxyz'' then char_of (of_char c - (32::nat)) else c)"

definition toUpperCase :: "string \<Rightarrow> string" where
  "toUpperCase s = map upper_char s"

text \<open>\<open>startRequest(method, path, requestId?)\<close>: \<open>draw\<close> is the random draw, \<open>fresh\<close> the
  uuid \<open>generateRequestId\<close> would return, \<open>now\<close> the clock.  \<open>requestId || fresh\<close> takes the
  generated id when no id or an empty one is passed.\<close>

definition startRequest ::
  "rat \<Rightarrow> string \<Rightarrow> int \<Rightarrow> string \<Rightarrow> string \<Rightarrow> string option \<Rightarrow> Telemetry
     \<Rightarrow> (string \<times> bool) \<times> Telemetry" where
  "startRequest draw fresh now meth pth rid t =
     (let shouldTrack = shouldCollect t draw;
          ident = (case rid of None \<Rightarrow> fresh | Some r \<Rightarrow> if r = [] then fresh else r)
      in if shouldTrack
         then let metrics = \<lparr> requestId = ident, http_method = toUpperCase meth,
                              path = normalizePath pth, startTime = now,
                              endTime = None, duration = None, statusCode = None,
                              success = None, errorMessage = None, errorType = None,
                              retryCount = None \<rparr>
              in ((ident, shouldTrack),
                  t\<lparr> activeRequests := AList.update ident metrics (activeRequests t) \<rparr>)
         else ((ident, shouldTrack), t))"

text \<open>The record \<open>endRequest\<close> completes.  \<open>statusCode ? statusCode < 400 : true\<close> treats a
  missing status and the status 0 alike; \<open>retryCount || 0\<close> and
  \<open>error.name || 'UnknownError'\<close> replace a missing or falsy value.\<close>

definition truthy_status :: "int option \<Rightarrow> bool" where
  "truthy_status sc = (case sc of None \<Rightarrow> False | Some c \<Rightarrow> c \<noteq> 0)"

definition complete_metrics ::
  "int \<Rightarrow> int option \<Rightarrow> JsError option \<Rightarrow> int option \<Rightarrow> RequestMetrics \<Rightarrow> RequestMetrics" where
  "complete_metrics now sc err rc m =
     (let m1 = m\<lparr> endTime := Some now,
                  duration := Some (now - startTime m),
                  statusCode := sc,
                  success := Some (err = None \<and> (if truthy_status sc then the sc < 400 else True)),
                  retryCount := Some (case rc of None \<Rightarrow> 0 | Some n \<Rightarrow> n) \<rparr>
      in case err of
           None \<Rightarrow> m1
         | Some e \<Rightarrow> m1\<lparr> errorMessage := Some (error_message e),
                         errorType := Some (if error_name e = [] then ''UnknownError''
                                            else error_name e) \<rparr>)"

text \<open>\<open>endRequest(requestId, statusCode?, error?, retryCount?)\<close>.\<close>

definition endRequest ::
  "int \<Rightarrow> string \<Rightarrow> int option \<Rightarrow> JsError option \<Rightarrow> int option \<Rightarrow> Telemetry \<Rightarrow> Telemetry" where
  "endRequest now rid sc err rc t =
     (case map_of (activeRequests t) rid of
        None \<Rightarrow> t
      | Some m0 \<Rightarrow>
          let metrics = complete_metrics now sc err rc m0;
              t1 = (case err of
                      Some e \<Rightarrow>
                        let ty = the (errorType metrics);
                            currentCount = (case map_of (errorTypes t) ty of
                                              None \<Rightarrow> 0 | Some n \<Rightarrow> n)
                        in t\<lparr> errorTypes := AList.update ty (currentCount + 1) (errorTypes t),
                              errorCount := errorCount t + 1 \<rparr>
                    | None \<Rightarrow> t\<lparr> successCount := successCount t + 1 \<rparr>);
              t2 = t1\<lparr> requestCount := requestCount t1 + 1,
                       totalDuration := totalDuration t1 + the (duration metrics) \<rparr>;
              t3 = t2\<lparr> handled := handled t2 @ [metrics] \<rparr>
          in t3\<lparr> activeRequests := AList.delete rid (activeRequests t3) \<rparr>)"

record Stats =
  stats_requestCount :: nat
  stats_successCount :: nat
  stats_errorCount :: nat
  stats_successRate :: rat
  stats_averageDuration :: rat
  stats_errorBreakdown :: "string \<rightharpoonup> nat"

definition getStats :: "Telemetry \<Rightarrow> Stats" where
  "getStats t =
     \<lparr> stats_requestCount = requestCount t,
       stats_successCount = successCount t,
       stats_errorCount = errorCount t,
       stats_successRate = (if requestCount t > 0
                            then of_nat (successCount t) / of_nat (requestCount t) else 1),
       stats_averageDuration = (if requestCount t > 0
                            then of_int (totalDuration t) / of_nat (requestCount t) else 0),
       stats_errorBreakdown = map_of (errorTypes t) \<rparr>"

definition resetStats :: "Telemetry \<Rightarrow> Telemetry" where
  "resetStats t = t\<lparr> requestCount := 0, successCount := 0, errorCount := 0,
                     totalDuration := 0, errorTypes := [] \<rparr>"

text \<open>The snapshot of a recorder that has completed nothing.\<close>

definition fresh_stats :: Stats where
  "fresh_stats = \<lparr> stats_requestCount = 0, stats_successCount = 0, stats_errorCount = 0,
                   stats_successRate = 1, stats_averageDuration = 0,
                   stats_errorBreakdown = Map.empty \<rparr>"

text \<open>The states a recorder can be in: built by the constructor and then driven by any
  sequence of its public operations.\<close>

inductive reachable :: "Telemetry \<Rightarrow> bool" where
  r_new: "reachable (Telemetry_new options)"
| r_start: "reachable t \<Longrightarrow> reachable (snd (startRequest draw fresh now meth pth rid t))"
| r_end: "reachable t \<Longrightarrow> reachable (endRequest now rid sc err rc t)"
| r_reset: "reachable t \<Longrightarrow> reachable (resetStats t)"

definition counts_balanced :: "Telemetry \<Rightarrow> bool" where
  "counts_balanced t = (requestCount t = successCount t + errorCount t)"

section \<open>Error classes and the classifier (src/utils/errors.ts)\<close>

text \<open>The class of an SDK error is its \<open>name\<close>; the fields a subclass adds are optional
  fields of one record, absent (\<open>None\<close>) on the classes that do not declare them.\<close>

datatype ErrorName =
    RevMaxError | RevMaxApiError | RevMaxAuthenticationError | RevMaxRateLimitError
  | RevMaxValidationError | RevMaxNotFoundError | RevMaxInitializationError

text \<open>A JavaScript number that is an integer or \<open>NaN\<close> (what \<open>parseInt\<close> returns).  The
  model computes with unbounded integers; a double is exact on them below \<open>2^53\<close>.\<close>

datatype JsNum = Num int | NaN

record Organization =
  org_id :: "string option"
  org_name :: "string option"

text \<open>A response body: the fields the SDK reads from it.\<close>

record ResponseData =
  data_message :: "string option"
  data_code :: "string option"
  data_errors :: "(string \<times> string list) list option"
  data_requestId :: "string option"
  data_organization :: "Organization option"

definition empty_data :: ResponseData where
  "empty_data = \<lparr> data_message = None, data_code = None, data_errors = None,
                  data_requestId = None, data_organization = None \<rparr>"

text \<open>The metadata objects the SDK builds: \<open>{}\<close>, \<open>{requestId}\<close> and
  \<open>{requestId, url, method, responseData}\<close>.\<close>

datatype Metadata =
    NoMetadata
  | RequestIdOnly string
  | ApiMetadata string "string option" "string option" ResponseData

fun metadata_requestId :: "Metadata \<Rightarrow> string option" where
  "metadata_requestId NoMetadata = None"
| "metadata_requestId (RequestIdOnly r) = Some r"
| "metadata_requestId (ApiMetadata r u m d) = Some r"

record SdkError =
  e_name :: ErrorName
  e_message :: string
  e_metadata :: Metadata
  e_requestId :: "string option"
  e_statusCode :: "int option"
  e_errorCode :: "string option"
  e_retryAfter :: "JsNum option"
  e_validationErrors :: "(string \<times> string list) list option"

definition RevMaxError_new :: "string \<Rightarrow> Metadata \<Rightarrow> SdkError" where
  "RevMaxError_new msg md =
     \<lparr> e_name = RevMaxError, e_message = msg, e_metadata = md,
       e_requestId = metadata_requestId md, e_statusCode = None, e_errorCode = None,
       e_retryAfter = None, e_validationErrors = None \<rparr>"

definition RevMaxApiError_new ::
  "string \<Rightarrow> int option \<Rightarrow> string option \<Rightarrow> Metadata \<Rightarrow> SdkError" where
  "RevMaxApiError_new msg sc code md =
     (RevMaxError_new msg md)\<lparr> e_name := RevMaxApiError, e_statusCode := sc,
                                e_errorCode := code \<rparr>"

definition RevMaxAuthenticationError_new :: "string \<Rightarrow> Metadata \<Rightarrow> SdkError" where
  "RevMaxAuthenticationError_new msg md =
     (RevMaxError_new msg md)\<lparr> e_name := RevMaxAuthenticationError \<rparr>"

definition RevMaxRateLimitError_new :: "string \<Rightarrow> JsNum \<Rightarrow> Metadata \<Rightarrow> SdkError" where
  "RevMaxRateLimitError_new msg ra md =
     (RevMaxApiError_new msg (Some 429) (Some ''rate_limit_exceeded'') md)
       \<lparr> e_name := RevMaxRateLimitError, e_retryAfter := Some ra \<rparr>"

definition RevMaxValidationError_new ::
  "string \<Rightarrow> (string \<times> string list) list \<Rightarrow> Metadata \<Rightarrow> SdkError" where
  "RevMaxValidationError_new msg errs md =
     (RevMaxError_new msg md)\<lparr> e_name := RevMaxValidationError,
                                e_validationErrors := Some errs \<rparr>"

definition RevMaxInitializationError_new :: "string \<Rightarrow> Metadata \<Rightarrow> SdkError" where
  "RevMaxInitializationError_new msg md =
     (RevMaxError_new msg md)\<lparr> e_name := RevMaxInitializationError \<rparr>"

text \<open>What the HTTP transport resolves with, and what it rejects with.  A response without
  a \<open>headers\<close> object has the empty header list, one without a body has \<open>data = None\<close>.\<close>

record Response =
  status :: int
  headers :: "(string \<times> string) list"
  data :: "ResponseData option"

record RequestConfig =
  cfg_url :: "string option"
  cfg_method :: "string option"
  cfg_requestId :: "string option"

record AxiosError =
  ax_message :: "string option"
  ax_response :: "Response option"
  ax_config :: "RequestConfig option"

text \<open>\<open>a || b\<close> on an optional string: a missing or empty \<open>a\<close> yields \<open>b\<close>.\<close>

definition or_else :: "string option \<Rightarrow> string \<Rightarrow> string" where
  "or_else a b = (case a of None \<Rightarrow> b | Some s \<Rightarrow> if s = [] then b else s)"

text \<open>\<open>parseInt(s, 10)\<close>: skip leading white space, read an optional sign, then the longest
  run of decimal digits; \<open>NaN\<close> when there is no digit.  The white space characters are
  those with a code below 256: tab, line feed, vertical tab, form feed, carriage return,
  space and no-break space.\<close>

definition is_space :: "char \<Rightarrow> bool" where
  "is_space c = (c \<in> {CHR 0x09, CHR 0x0A, CHR 0x0B, CHR 0x0C, CHR 0x0D, CHR 0x20, CHR 0xA0})"

definition digit_value :: "char \<Rightarrow> int" where
  "digit_value c = int (of_char c) - 48"

definition decimal :: "string \<Rightarrow> int" where
  "decimal ds = foldl (\<lambda>acc c. 10 * acc + digit_value c) 0 ds"

definition parseInt :: "string \<Rightarrow> JsNum" where
  "parseInt s =
     (let s1 = dropWhile is_space s;
          sign = (if s1 \<noteq> [] \<and> hd s1 = CHR ''-'' then - 1 else 1);
          s2 = (if s1 \<noteq> [] \<and> (hd s1 = CHR ''-'' \<or> hd s1 = CHR ''+'') then tl s1 else s1);
          ds = takeWhile is_digit s2
      in if ds = [] then NaN else Num (sign * decimal ds))"

fun js_times :: "JsNum \<Rightarrow> int \<Rightarrow> JsNum" where
  "js_times NaN k = NaN"
| "js_times (Num n) k = Num (n * k)"

text \<open>\<open>error.response?.headers?.['retry-after']\<close>, as the value or \<open>undefined\<close>.\<close>

definition retry_after_header :: "AxiosError \<Rightarrow> string option" where
  "retry_after_header error =
     (case ax_response error of None \<Rightarrow> None
      | Some r \<Rightarrow> map_of (headers r) ''retry-after'')"

definition parseApiError :: "AxiosError \<Rightarrow> SdkError" where
  "parseApiError error =
     (let message = or_else (ax_message error) ''Unknown error'';
          statusCode = map_option status (ax_response error);
          responseData = (case ax_response error of None \<Rightarrow> empty_data
                          | Some r \<Rightarrow> (case data r of None \<Rightarrow> empty_data | Some d \<Rightarrow> d));
          requestId = or_else (case ax_config error of None \<Rightarrow> None
                                | Some cfg \<Rightarrow> cfg_requestId cfg)
                        (or_else (data_requestId responseData) ''unknown'');
          metadata = ApiMetadata requestId
                       (case ax_config error of None \<Rightarrow> None | Some cfg \<Rightarrow> cfg_url cfg)
                       (case ax_config error of None \<Rightarrow> None | Some cfg \<Rightarrow> cfg_method cfg)
                       responseData
      in if statusCode = Some 401
         then RevMaxAuthenticationError_new
                (or_else (data_message responseData) ''Authentication failed'') metadata
         else if statusCode = Some 429
         then RevMaxRateLimitError_new
                (or_else (data_message responseData) ''Rate limit exceeded'')
                (parseInt (or_else (retry_after_header error) ''0'')) metadata
         else if statusCode = Some 422 \<and> data_errors responseData \<noteq> None
         then RevMaxValidationError_new
                (or_else (data_message responseData) ''Validation failed'')
                (the (data_errors responseData)) metadata
         else if statusCode \<noteq> None \<and> statusCode \<noteq> Some 0
         then RevMaxApiError_new (or_else (data_message responseData) message)
                statusCode (data_code responseData) metadata
         else RevMaxError_new message metadata)"

section \<open>Request executor (src/utils/api.ts)\<close>

definition calculateBackoff :: "nat \<Rightarrow> int \<Rightarrow> int" where
  "calculateBackoff retry initialDelay = initialDelay * 2 ^ retry"

definition isRetryable :: "AxiosError \<Rightarrow> bool" where
  "isRetryable error =
     (case ax_response error of
        Some r \<Rightarrow> status r = 429 \<or> (status r \<ge> 500 \<and> status r < 600)
      | None \<Rightarrow> True)"

text \<open>The options the executor reads; a key that is absent takes the default of
  \<open>DEFAULT_OPTIONS\<close> (\<open>retries: 0\<close>, \<open>retryDelay: 300\<close>), and the \<open>|| 0\<close> of the constructor
  leaves a number as it is.\<close>

record ClientOptions =
  opt_retries :: "int option"
  opt_retryDelay :: "int option"

record ApiClient =
  retries :: int
  retryDelay :: int

definition ApiClient_new :: "ClientOptions \<Rightarrow> ApiClient" where
  "ApiClient_new options =
     \<lparr> retries = (case opt_retries options of None \<Rightarrow> 0 | Some n \<Rightarrow> n),
       retryDelay = (case opt_retryDelay options of None \<Rightarrow> 300 | Some d \<Rightarrow> d) \<rparr>"

text \<open>The transport (\<open>this.axios.request\<close>) is outside the repository.  It is a parameter:
  \<open>transport n\<close> is the outcome of the call number \<open>n\<close> (from 0) that the executor makes.
  Every turn of the loop makes one call, so inside the loop the call number is \<open>retry\<close>.\<close>

datatype Outcome = Resolved Response | Rejected AxiosError

text \<open>What a call of the SDK throws: an SDK error, or the \<open>TypeError\<close> of reading a property
  of \<open>undefined\<close>.\<close>

datatype Thrown = Sdk SdkError | TypeError string

text \<open>A run of \<open>request\<close>: what it returned or threw, how many calls of the transport it
  made, and the arguments of its calls of \<open>sleep\<close>, in order.\<close>

record Run =
  result :: "Thrown + Response"
  attempts :: nat
  sleeps :: "JsNum list"

text \<open>\<open>throw parseApiError(lastError)\<close> behind the loop; \<open>lastError\<close> is still \<open>undefined\<close>
  when the loop body never ran.\<close>

definition throw_parsed :: "AxiosError option \<Rightarrow> nat \<Rightarrow> JsNum list \<Rightarrow> Run" where
  "throw_parsed lastError n slept =
     \<lparr> result = (case lastError of
                   None \<Rightarrow> Inl (TypeError
                     ''Cannot read properties of undefined (reading 'message')'')
                 | Some e \<Rightarrow> Inl (Sdk (parseApiError e))),
       attempts = n, sleeps = slept \<rparr>"

text \<open>The argument of the \<open>sleep\<close> between two attempts (the body of the \<open>if\<close> in the
  \<open>catch\<close> block): the backoff is computed first, and the \<open>retry-after\<close> header replaces it
  when it is a non-empty string.\<close>

definition wait_before_retry :: "ApiClient \<Rightarrow> nat \<Rightarrow> AxiosError \<Rightarrow> JsNum" where
  "wait_before_retry c retry error =
     (let backoff = calculateBackoff retry (retryDelay c)
      in case retry_after_header error of
           Some h \<Rightarrow> if h \<noteq> [] then js_times (parseInt h) 1000 else Num backoff
         | None \<Rightarrow> Num backoff)"

function request_loop ::
  "ApiClient \<Rightarrow> (nat \<Rightarrow> Outcome) \<Rightarrow> nat \<Rightarrow> AxiosError option \<Rightarrow> JsNum list \<Rightarrow> Run" where
  "request_loop c transport retry lastError slept =
     (if int retry \<le> retries c then
        (case transport retry of
           Resolved response \<Rightarrow>
             \<lparr> result = Inr response, attempts = Suc retry, sleeps = slept \<rparr>
         | Rejected error \<Rightarrow>
             if int retry < retries c \<and> isRetryable error then
               request_loop c transport (Suc retry) (Some error)
                 (slept @ [wait_before_retry c retry error])
             else throw_parsed (Some error) (Suc retry) slept)
      else throw_parsed lastError retry slept)"
  by pat_completeness auto
termination
  by (relation "measure (\<lambda>(c, transport, retry, lastError, slept).
                           nat (retries c + 1 - int retry))") auto

definition request :: "ApiClient \<Rightarrow> (nat \<Rightarrow> Outcome) \<Rightarrow> Run" where
  "request c transport = request_loop c transport 0 None []"

text \<open>\<open>get(url)\<close>: the body of the response, or what \<open>request\<close> threw.\<close>

definition ApiClient_get :: "ApiClient \<Rightarrow> (nat \<Rightarrow> Outcome) \<Rightarrow> Thrown + ResponseData option" where
  "ApiClient_get c transport =
     (case result (request c transport) of
        Inl thrown \<Rightarrow> Inl thrown
      | Inr response \<Rightarrow> Inr (data response))"

section \<open>Authenticator (src/auth/apiKey.ts)\<close>

definition REVX_API_KEY_PREFIX :: string where
  "REVX_API_KEY_PREFIX = ''revx_pk_''"

record ApiKeyAuth =
  apiKey :: string
  verified :: bool

text \<open>The constructor.  Its argument is typed \<open>string\<close>, so the \<open>typeof\<close> check cannot fire.\<close>

definition ApiKeyAuth_new :: "string \<Rightarrow> SdkError + ApiKeyAuth" where
  "ApiKeyAuth_new key =
     (if key = [] then
        Inl (RevMaxAuthenticationError_new ''REVX_API_KEY is required'' NoMetadata)
      else if \<not> prefix REVX_API_KEY_PREFIX key then
        Inl (RevMaxAuthenticationError_new
              (''REVX_API_KEY format not valid: it should start with '' @ [CHR 0x22] @
               REVX_API_KEY_PREFIX @ [CHR 0x22] @ '' followed by a unique identifier'')
              NoMetadata)
      else if length key < length REVX_API_KEY_PREFIX + 16 then
        Inl (RevMaxAuthenticationError_new
              ''REVX_API_KEY format not valid: key is too short'' NoMetadata)
      else Inr \<lparr> apiKey = key, verified = False \<rparr>)"

definition getHeaders :: "ApiKeyAuth \<Rightarrow> (string \<rightharpoonup> string)" where
  "getHeaders a = [''revx-api-key'' \<mapsto> apiKey a]"

definition setVerified :: "bool \<Rightarrow> ApiKeyAuth \<Rightarrow> ApiKeyAuth" where
  "setVerified st a = a\<lparr> verified := st \<rparr>"

section \<open>Client facade (src/client.ts)\<close>

record RevMaxClient =
  apiClient :: ApiClient
  auth :: ApiKeyAuth
  orgInfo :: "Organization option"

text \<open>The \<open>catch\<close> block of \<open>connect\<close>.  The status it looks at is
  \<open>error.statusCode || (error.response && error.response.status)\<close>; what reaches the block
  is an SDK error or a \<open>TypeError\<close>, neither of which has a \<open>response\<close>.\<close>

definition thrown_statusCode :: "Thrown \<Rightarrow> int option" where
  "thrown_statusCode th =
     (case th of
        Sdk e \<Rightarrow> (case e_statusCode e of None \<Rightarrow> None
                  | Some sc \<Rightarrow> if sc \<noteq> 0 then Some sc else None)
      | TypeError m \<Rightarrow> None)"

definition thrown_message :: "Thrown \<Rightarrow> string option" where
  "thrown_message th = (case th of Sdk e \<Rightarrow> Some (e_message e) | TypeError m \<Rightarrow> Some m)"

definition thrown_requestId :: "Thrown \<Rightarrow> string option" where
  "thrown_requestId th = (case th of Sdk e \<Rightarrow> e_requestId e | TypeError m \<Rightarrow> None)"

definition connect_catch :: "Thrown \<Rightarrow> SdkError" where
  "connect_catch error =
     (let statusCode = thrown_statusCode error;
          errorMessage = or_else (thrown_message error) ''Unknown error'';
          requestId = or_else (thrown_requestId error) ''unknown''
      in if statusCode = Some 401
         then RevMaxAuthenticationError_new
                ''Invalid API key. Please check your API key and try again.''
                (RequestIdOnly requestId)
         else RevMaxInitializationError_new (''Connection failed: '' @ errorMessage)
                (RequestIdOnly requestId))"

text \<open>\<open>!result || !result.organization || !result.organization.id\<close>.\<close>

definition bad_verify_body :: "ResponseData option \<Rightarrow> bool" where
  "bad_verify_body res =
     (case res of None \<Rightarrow> True
      | Some d \<Rightarrow> (case data_organization d of None \<Rightarrow> True
                   | Some org \<Rightarrow> (case org_id org of None \<Rightarrow> True | Some i \<Rightarrow> i = [])))"

definition connect :: "(nat \<Rightarrow> Outcome) \<Rightarrow> RevMaxClient \<Rightarrow> SdkError + RevMaxClient" where
  "connect transport cl =
     (case ApiClient_get (apiClient cl) transport of
        Inr res \<Rightarrow>
          if bad_verify_body res
          then Inl (connect_catch (Sdk (RevMaxInitializationError_new
                      ''Unexpected response format from API key verification'' NoMetadata)))
          else Inr (cl\<lparr> orgInfo := data_organization (the res),
                         auth := setVerified True (auth cl) \<rparr>)
      | Inl error \<Rightarrow> Inl (connect_catch error))"

section \<open>Paths as lists of segments\<close>

text \<open>The vocabulary of the statement about path normalisation, not taken from the code:
  a path written as the list of its segments, each behind its slash; a segment that has
  the shape of a UUID; a segment made of decimal digits only.\<close>

definition join_path :: "string list \<Rightarrow> string" where
  "join_path segs = concat (map ((#) CHR ''/'') segs)"

definition uuid_shaped :: "string \<Rightarrow> bool" where
  "uuid_shaped s = (length s = 36 \<and> match_classes uuid_body s)"

definition numeric_segment :: "string \<Rightarrow> bool" where
  "numeric_segment s = (s \<noteq> [] \<and> (\<forall>c \<in> set s. is_digit c))"

text \<open>What each of the two replacements does to one segment.\<close>

definition uuid_step :: "string \<Rightarrow> string" where
  "uuid_step s = (if match_classes uuid_body s then '':id'' @ drop 36 s else s)"

definition numeric_step :: "string \<Rightarrow> string" where
  "numeric_step s = (if numeric_segment s then '':id'' else s)"

section \<open>Sample values\<close>

text \<open>A recorder with telemetry switched on that tracks one request, \<open>r1\<close>.\<close>

definition demo_tracked :: Telemetry where
  "demo_tracked =
     snd (startRequest 0 ''r1'' 1000 ''get'' ''/customers/4821'' None
            (Telemetry_new (Some \<lparr> opt_enabled = Some True, opt_sampleRate = None \<rparr>)))"

text \<open>A transport that answers every call alike, a failed call with a given status and
  header list, and an executor configured with \<open>retries: 2, retryDelay: 300\<close>.\<close>

definition always :: "Outcome \<Rightarrow> nat \<Rightarrow> Outcome" where
  "always out n = out"

text \<open>A transport that answers the first calls as listed and every later call alike.\<close>

definition script :: "Outcome list \<Rightarrow> Outcome \<Rightarrow> nat \<Rightarrow> Outcome" where
  "script outs later n = (if n < length outs then outs ! n else later)"

definition http_failure :: "int \<Rightarrow> (string \<times> string) list \<Rightarrow> AxiosError" where
  "http_failure sc hs =
     \<lparr> ax_message = Some ''Request failed'',
       ax_response = Some \<lparr> status = sc, headers = hs, data = None \<rparr>,
       ax_config = None \<rparr>"

definition demo_client :: ApiClient where
  "demo_client = ApiClient_new \<lparr> opt_retries = Some 2, opt_retryDelay = Some 300 \<rparr>"

text \<open>A client whose key passed the constructor, and a 200 response of the verification
  endpoint with a given organization object.\<close>

definition verify_response :: "Organization option \<Rightarrow> Response" where
  "verify_response org =
     \<lparr> status = 200, headers = [], data = Some (empty_data\<lparr> data_organization := org \<rparr>) \<rparr>"

definition demo_facade :: RevMaxClient where
  "demo_facade =
     \<lparr> apiClient = ApiClient_new \<lparr> opt_retries = None, opt_retryDelay = None \<rparr>,
       auth = \<lparr> apiKey = ''revx_pk_0123456789abcdef'', verified = False \<rparr>,
       orgInfo = None \<rparr>"

section \<open>Properties of the recorder\<close>

lemma endRequest_unknown:
  "map_of (activeRequests t) rid = None \<Longrightarrow> endRequest now rid sc err rc t = t"
  by (simp add: endRequest_def)

lemma endRequest_removes:
  "map_of (activeRequests (endRequest now rid sc err rc t)) rid = None"
  by (cases "map_of (activeRequests t) rid")
     (auto simp: endRequest_def Let_def delete_conv split: option.splits)

lemma demo_tracked_eq:
  "demo_tracked =
     \<lparr> enabled = True, sampleRate = 1,
       activeRequests =
         [(''r1'', \<lparr> requestId = ''r1'', http_method = ''GET'', path = ''/customers/:id'',
                    startTime = 1000, endTime = None, duration = None, statusCode = None,
                    success = None, errorMessage = None, errorType = None,
                    retryCount = None \<rparr>)],
       requestCount = 0, successCount = 0, errorCount = 0, totalDuration = 0,
       errorTypes = [], handled = [] \<rparr>"
  by code_simp

lemma startRequest_counts [simp]:
  "requestCount (snd (startRequest draw fresh now meth pth rid t)) = requestCount t"
  "successCount (snd (startRequest draw fresh now meth pth rid t)) = successCount t"
  "errorCount (snd (startRequest draw fresh now meth pth rid t)) = errorCount t"
  by (simp_all add: startRequest_def Let_def)

lemma endRequest_balanced:
  "counts_balanced t \<Longrightarrow> counts_balanced (endRequest now rid sc err rc t)"
  by (auto simp: counts_balanced_def endRequest_def Let_def split: option.splits)

lemma new_balanced: "counts_balanced (Telemetry_new options)"
  by (simp add: counts_balanced_def Telemetry_new_def)

lemma reset_balanced: "counts_balanced (resetStats t)"
  by (simp add: counts_balanced_def resetStats_def)

lemma reachable_balanced: "reachable t \<Longrightarrow> counts_balanced t"
proof (induction rule: reachable.induct)
  case (r_new options)
  show ?case by (rule new_balanced)
next
  case (r_start t draw fresh now meth pth rid)
  then show ?case by (simp add: counts_balanced_def)
next
  case (r_end t now rid sc err rc)
  then show ?case by (simp add: endRequest_balanced)
next
  case (r_reset t)
  show ?case by (rule reset_balanced)
qed

lemma demo_tracked_reachable: "reachable demo_tracked"
  unfolding demo_tracked_def by (rule r_start) (rule r_new)

text \<open>
  Claim C6, as amended.  When \<open>endRequest\<close> is called with an identifier that is in the
  in-flight table, the handler receives the completed record, whose \<open>success\<close> is
  (no error was passed) and (no status code was passed or the status code is below 400);
  the request count goes up by one; and exactly one of the two outcome counters goes up by
  one, chosen by whether an error object was passed and not by the \<open>success\<close> flag: with
  no error the success count (the histogram is untouched), with an error the error count,
  and then the histogram entry under \<open>error.name\<close> (\<open>UnknownError\<close> for an empty name) goes
  up by one.  The identifier leaves the in-flight table.
\<close>

theorem endRequest_tracked:
  assumes "map_of (activeRequests t) rid = Some m0"
  shows "handled (endRequest now rid sc err rc t) = handled t @ [complete_metrics now sc err rc m0]
   \<and> success (complete_metrics now sc err rc m0)
        = Some (err = None \<and> (case sc of None \<Rightarrow> True | Some code \<Rightarrow> code < 400))
   \<and> requestCount (endRequest now rid sc err rc t) = requestCount t + 1
   \<and> (err = None \<longrightarrow>
         successCount (endRequest now rid sc err rc t) = successCount t + 1
       \<and> errorCount (endRequest now rid sc err rc t) = errorCount t
       \<and> errorTypes (endRequest now rid sc err rc t) = errorTypes t)
   \<and> (\<forall>e. err = Some e \<longrightarrow>
         errorCount (endRequest now rid sc err rc t) = errorCount t + 1
       \<and> successCount (endRequest now rid sc err rc t) = successCount t
       \<and> map_of (errorTypes (endRequest now rid sc err rc t))
           = (map_of (errorTypes t))
               ((if error_name e = [] then ''UnknownError'' else error_name e) \<mapsto>
                  (case map_of (errorTypes t)
                          (if error_name e = [] then ''UnknownError'' else error_name e)
                     of None \<Rightarrow> 0 | Some n \<Rightarrow> n) + 1))
   \<and> map_of (activeRequests (endRequest now rid sc err rc t)) rid = None"
  using assms
  by (cases err)
     (auto simp: endRequest_def complete_metrics_def truthy_status_def Let_def
                 update_conv' delete_conv split: option.splits)

theorem endRequest_tracked_witness:
  "requestCount (endRequest 1250 ''r1'' (Some 500)
      (Some \<lparr> error_message = ''boom'', error_name = ''AxiosError'' \<rparr>) (Some 1) demo_tracked) = 1
   \<and> errorCount (endRequest 1250 ''r1'' (Some 500)
      (Some \<lparr> error_message = ''boom'', error_name = ''AxiosError'' \<rparr>) (Some 1) demo_tracked) = 1
   \<and> successCount (endRequest 1250 ''r1'' (Some 500)
      (Some \<lparr> error_message = ''boom'', error_name = ''AxiosError'' \<rparr>) (Some 1) demo_tracked) = 0
   \<and> map_of (errorTypes (endRequest 1250 ''r1'' (Some 500)
      (Some \<lparr> error_message = ''boom'', error_name = ''AxiosError'' \<rparr>) (Some 1) demo_tracked))
        ''AxiosError'' = Some 1"
proof -
  have tracked: "map_of (activeRequests demo_tracked) ''r1''
      = Some \<lparr> requestId = ''r1'', http_method = ''GET'', path = ''/customers/:id'',
               startTime = 1000, endTime = None, duration = None, statusCode = None,
               success = None, errorMessage = None, errorType = None, retryCount = None \<rparr>"
    by (simp add: demo_tracked_eq)
  show ?thesis
    using endRequest_tracked [OF tracked, of 1250 "Some 500"
        "Some \<lparr> error_message = ''boom'', error_name = ''AxiosError'' \<rparr>" "Some 1"]
    by (simp add: demo_tracked_eq)
qed

text \<open>
  Claim C6 as stated fails: a tracked request ended with status 500 and no error object
  yields a record with \<open>success = false\<close>, yet it is the success count that goes up and the
  error count stays.
\<close>

theorem endRequest_status_500_without_error:
  "map_of (activeRequests demo_tracked) ''r1'' \<noteq> None
   \<and> success (last (handled (endRequest 1250 ''r1'' (Some 500) None None demo_tracked)))
       = Some False
   \<and> successCount (endRequest 1250 ''r1'' (Some 500) None None demo_tracked)
       = successCount demo_tracked + 1
   \<and> errorCount (endRequest 1250 ''r1'' (Some 500) None None demo_tracked)
       = errorCount demo_tracked"
  by (simp add: demo_tracked_eq endRequest_def complete_metrics_def truthy_status_def Let_def)

text \<open>
  Claim C7.  \<open>endRequest\<close> with an identifier that is not in the in-flight table returns the
  recorder as it was: counters, histogram, in-flight table and handler calls are all
  unchanged, and the call has no failing branch.  A completed identifier is no longer in
  the table, so a second \<open>endRequest\<close> with the same identifier, whatever its other
  arguments, changes nothing: a tracked attempt is counted once.
\<close>

theorem endRequest_unknown_noop:
  "(map_of (activeRequests t) rid = None \<longrightarrow> endRequest now rid sc err rc t = t)
   \<and> endRequest now' rid sc' err' rc' (endRequest now rid sc err rc t)
       = endRequest now rid sc err rc t"
  by (simp add: endRequest_unknown endRequest_removes)

theorem endRequest_unknown_noop_witness:
  "endRequest 1250 ''never-tracked'' (Some 200) None None demo_tracked = demo_tracked
   \<and> requestCount (endRequest 1300 ''r1'' (Some 500) None None
        (endRequest 1250 ''r1'' (Some 200) None None demo_tracked)) = 1"
proof -
  have unknown: "map_of (activeRequests demo_tracked) ''never-tracked'' = None"
    by (simp add: demo_tracked_eq)
  have once: "requestCount (endRequest 1250 ''r1'' (Some 200) None None demo_tracked) = 1"
    by (simp add: demo_tracked_eq endRequest_def complete_metrics_def truthy_status_def Let_def)
  show ?thesis
    using endRequest_unknown_noop [of demo_tracked "''never-tracked''" 1250 "Some 200" None None]
      endRequest_unknown_noop [of demo_tracked "''r1''" 1250 "Some 200" None None
        1300 "Some 500" None None]
      unknown once
    by simp
qed

text \<open>
  Claim C8.  For every recorder state, and so for every reachable one, \<open>getStats\<close> after
  \<open>resetStats\<close> is the snapshot of a fresh recorder (all counts 0, success rate 1, average
  duration 0, empty error breakdown), which is also what \<open>getStats\<close> returns on a newly
  constructed recorder; \<open>resetStats\<close> leaves the in-flight table as it is.
\<close>

theorem resetStats_getStats_fresh:
  "getStats (resetStats t) = fresh_stats
   \<and> getStats (Telemetry_new options) = fresh_stats
   \<and> activeRequests (resetStats t) = activeRequests t"
  by (simp add: getStats_def resetStats_def fresh_stats_def Telemetry_new_def)

theorem resetStats_getStats_fresh_witness:
  "getStats (resetStats (endRequest 1250 ''r1'' (Some 500) None None demo_tracked)) = fresh_stats
   \<and> activeRequests (resetStats demo_tracked) = activeRequests demo_tracked"
  using resetStats_getStats_fresh [of "endRequest 1250 ''r1'' (Some 500) None None demo_tracked"]
    resetStats_getStats_fresh [of demo_tracked]
  by simp

text \<open>
  Claim C10.  \<open>requestCount = successCount + errorCount\<close> holds for a newly constructed
  recorder and after \<open>resetStats\<close>, every \<open>endRequest\<close> call preserves it (a call on an
  unknown identifier changes nothing, a completion adds one to \<open>requestCount\<close> and to
  exactly one of the other two), and so it holds in every reachable state.
\<close>

theorem counts_balanced_invariant:
  "counts_balanced (Telemetry_new options)
   \<and> counts_balanced (resetStats t)
   \<and> (counts_balanced t \<longrightarrow> counts_balanced (endRequest now rid sc err rc t))
   \<and> (reachable t \<longrightarrow> counts_balanced t)"
  using new_balanced reset_balanced endRequest_balanced reachable_balanced by blast

theorem counts_balanced_invariant_witness:
  "counts_balanced demo_tracked
   \<and> counts_balanced (endRequest 1250 ''r1'' (Some 500) None None demo_tracked)"
proof -
  have "counts_balanced demo_tracked"
    using counts_balanced_invariant [of None demo_tracked] demo_tracked_reachable by blast
  then show ?thesis
    using counts_balanced_invariant [of None demo_tracked 1250 "''r1''" "Some 500" None None]
    by blast
qed

section \<open>Properties of the executor\<close>

text \<open>One turn of the retry loop, by the outcome of the call.\<close>

lemma loop_resolved:
  "int retry \<le> retries c \<Longrightarrow> transport retry = Resolved r \<Longrightarrow>
   request_loop c transport retry le0 sl = \<lparr> result = Inr r, attempts = Suc retry, sleeps = sl \<rparr>"
  by simp

lemma loop_stop:
  "int retry \<le> retries c \<Longrightarrow> transport retry = Rejected e \<Longrightarrow>
   \<not> (int retry < retries c \<and> isRetryable e) \<Longrightarrow>
   request_loop c transport retry le0 sl = throw_parsed (Some e) (Suc retry) sl"
  by auto

lemma loop_retry:
  "int retry < retries c \<Longrightarrow> transport retry = Rejected e \<Longrightarrow> isRetryable e \<Longrightarrow>
   request_loop c transport retry le0 sl
     = request_loop c transport (Suc retry) (Some e) (sl @ [wait_before_retry c retry e])"
  by simp

declare request_loop.simps [simp del]

lemma loop_sleeps_prefix: "\<exists>ys. sleeps (request_loop c transport retry le0 sl) = sl @ ys"
proof (induction c transport retry le0 sl rule: request_loop.induct)
  case (1 c transport retry lastError slept)
  show ?case
  proof (cases "int retry \<le> retries c")
    case False
    then show ?thesis by (simp add: request_loop.simps throw_parsed_def)
  next
    case le: True
    show ?thesis
    proof (cases "transport retry")
      case (Resolved r)
      with le show ?thesis by (simp add: loop_resolved)
    next
      case (Rejected e)
      show ?thesis
      proof (cases "int retry < retries c \<and> isRetryable e")
        case True
        with 1[OF le Rejected] obtain ys where
          "sleeps (request_loop c transport (Suc retry) (Some e) (slept @ [wait_before_retry c retry e]))
             = (slept @ [wait_before_retry c retry e]) @ ys" by blast
        with True Rejected show ?thesis by (simp add: loop_retry)
      next
        case False
        with le Rejected show ?thesis by (simp add: loop_stop throw_parsed_def)
      qed
    qed
  qed
qed

lemma loop_attempts_ge: "retry \<le> attempts (request_loop c transport retry le0 sl)"
proof (induction c transport retry le0 sl rule: request_loop.induct)
  case (1 c transport retry lastError slept)
  show ?case
  proof (cases "int retry \<le> retries c")
    case False
    then show ?thesis by (simp add: request_loop.simps throw_parsed_def)
  next
    case le: True
    show ?thesis
    proof (cases "transport retry")
      case (Resolved r)
      with le show ?thesis by (simp add: loop_resolved)
    next
      case (Rejected e)
      show ?thesis
      proof (cases "int retry < retries c \<and> isRetryable e")
        case True
        with 1[OF le Rejected] have
          "Suc retry \<le> attempts (request_loop c transport (Suc retry) (Some e) (slept @ [wait_before_retry c retry e]))"
          by blast
        with True Rejected show ?thesis by (simp add: loop_retry)
      next
        case False
        with le Rejected show ?thesis by (simp add: loop_stop throw_parsed_def)
      qed
    qed
  qed
qed

text \<open>Running through a stretch of retryable failures.\<close>

lemma loop_reaches:
  assumes "\<forall>i. retry \<le> i \<and> i < k \<longrightarrow> transport i = Rejected (es i) \<and> isRetryable (es i)"
    and "int k \<le> retries c" and "retry \<le> k"
  shows "\<exists>le'. request_loop c transport retry le0 sl
           = request_loop c transport k le'
               (sl @ map (\<lambda>i. wait_before_retry c i (es i)) [retry..<k])"
  using assms
proof (induction "k - retry" arbitrary: retry le0 sl)
  case 0
  then have "retry = k" by simp
  then show ?case by auto
next
  case (Suc n)
  then have lt: "retry < k" by simp
  with Suc.prems have here: "transport retry = Rejected (es retry)" "isRetryable (es retry)"
    by auto
  from lt Suc.prems have budget: "int retry < retries c" by simp
  have step: "request_loop c transport retry le0 sl
      = request_loop c transport (Suc retry) (Some (es retry)) (sl @ [wait_before_retry c retry (es retry)])"
    using budget here by (simp add: loop_retry)
  have "n = k - Suc retry" using Suc.hyps(2) by simp
  moreover have "\<forall>i. Suc retry \<le> i \<and> i < k \<longrightarrow> transport i = Rejected (es i) \<and> isRetryable (es i)"
    using Suc.prems(1) by simp
  moreover have "Suc retry \<le> k" using lt by simp
  ultimately obtain le' where
    "request_loop c transport (Suc retry) (Some (es retry)) (sl @ [wait_before_retry c retry (es retry)])
       = request_loop c transport k le'
           ((sl @ [wait_before_retry c retry (es retry)]) @ map (\<lambda>i. wait_before_retry c i (es i)) [Suc retry..<k])"
    using Suc.hyps(1) Suc.prems(2) by blast
  moreover have "[retry..<k] = retry # [Suc retry..<k]" using lt by (simp add: upt_conv_Cons)
  ultimately show ?case using step by auto
qed

lemma request_sleep_at:
  assumes "\<forall>i\<le>k. transport i = Rejected (es i) \<and> isRetryable (es i)" and "int k < retries c"
  shows "k < length (sleeps (request c transport)) \<and>
         sleeps (request c transport) ! k = wait_before_retry c k (es k)"
proof -
  have pre: "\<forall>i. 0 \<le> i \<and> i < k \<longrightarrow> transport i = Rejected (es i) \<and> isRetryable (es i)"
    using assms(1) by simp
  from loop_reaches[OF pre, of c None "[]"] assms(2)
  obtain le' where a: "request c transport
       = request_loop c transport k le' (map (\<lambda>i. wait_before_retry c i (es i)) [0..<k])"
    by (auto simp: request_def)
  have here: "transport k = Rejected (es k)" "isRetryable (es k)" using assms(1) by auto
  have b: "request c transport = request_loop c transport (Suc k) (Some (es k))
       (map (\<lambda>i. wait_before_retry c i (es i)) [0..<k] @ [wait_before_retry c k (es k)])"
    using a assms(2) here by (simp add: loop_retry)
  obtain ys where "sleeps (request c transport)
     = (map (\<lambda>i. wait_before_retry c i (es i)) [0..<k] @ [wait_before_retry c k (es k)]) @ ys"
    using loop_sleeps_prefix[of c transport "Suc k" "Some (es k)"] b by metis
  then show ?thesis by (simp add: nth_append)
qed

lemma loop_attempts_gt:
  assumes "int retry \<le> retries c"
  shows "retry < attempts (request_loop c transport retry le0 sl)"
proof (cases "transport retry")
  case (Resolved r)
  with assms show ?thesis by (simp add: loop_resolved)
next
  case (Rejected e)
  show ?thesis
  proof (cases "int retry < retries c \<and> isRetryable e")
    case True
    then have "request_loop c transport retry le0 sl
       = request_loop c transport (Suc retry) (Some e) (sl @ [wait_before_retry c retry e])"
      using Rejected by (simp add: loop_retry)
    then show ?thesis
      using loop_attempts_ge[of "Suc retry" c transport "Some e" "sl @ [wait_before_retry c retry e]"]
      by simp
  next
    case False
    with assms Rejected show ?thesis by (simp add: loop_stop throw_parsed_def)
  qed
qed

text \<open>
  Claim C1, as amended.  When the calls number 0 to \<open>k\<close> all fail retryably and retries
  remain after call \<open>k\<close>, the executor sleeps before the next call, and the wait is the
  \<open>retry-after\<close> header of the failed response, read by \<open>parseInt\<close> and multiplied by 1000,
  whenever that header is present and non-empty, whatever the status of the response (429
  or 5xx); it is the backoff \<open>retryDelay * 2^k\<close> when there is no response, no such header,
  or an empty one.  A header \<open>retry-after: 5\<close> gives 5000 ms.
\<close>

theorem wait_is_header_or_backoff:
  assumes "\<forall>i\<le>k. transport i = Rejected (es i) \<and> isRetryable (es i)" and "int k < retries c"
  shows "k < length (sleeps (request c transport))
     \<and> (\<forall>r h. ax_response (es k) = Some r \<longrightarrow> map_of (headers r) ''retry-after'' = Some h \<longrightarrow> h \<noteq> [] \<longrightarrow>
            sleeps (request c transport) ! k = js_times (parseInt h) 1000)
     \<and> ((ax_response (es k) = None \<or> (\<exists>r. ax_response (es k) = Some r \<and>
            (map_of (headers r) ''retry-after'' = None \<or> map_of (headers r) ''retry-after'' = Some [])))
          \<longrightarrow> sleeps (request c transport) ! k = Num (retryDelay c * 2 ^ k))
     \<and> js_times (parseInt ''5'') 1000 = Num 5000"
proof -
  note at = request_sleep_at[OF assms]
  have p5: "js_times (parseInt ''5'') 1000 = Num 5000" by code_simp
  show ?thesis using at p5
    by (auto simp: wait_before_retry_def retry_after_header_def calculateBackoff_def Let_def)
qed

theorem wait_is_header_or_backoff_witness:
  "sleeps (request demo_client (always (Rejected (http_failure 429 [(''retry-after'', ''5'')])))) ! 0 = Num 5000
   \<and> sleeps (request demo_client (always (Rejected (http_failure 500 [])))) ! 1 = Num 600"
proof -
  have r: "retries demo_client = 2" "retryDelay demo_client = 300"
    by (simp_all add: demo_client_def ApiClient_new_def)
  have a: "\<forall>i\<le>0. always (Rejected (http_failure 429 [(''retry-after'', ''5'')])) i
            = Rejected (http_failure 429 [(''retry-after'', ''5'')])
          \<and> isRetryable (http_failure 429 [(''retry-after'', ''5'')])"
    by (simp add: always_def isRetryable_def http_failure_def)
  have b: "\<forall>i\<le>1. always (Rejected (http_failure 500 [])) i = Rejected (http_failure 500 [])
          \<and> isRetryable (http_failure 500 [])"
    by (simp add: always_def isRetryable_def http_failure_def)
  have "sleeps (request demo_client (always (Rejected (http_failure 429 [(''retry-after'', ''5'')])))) ! 0
      = js_times (parseInt ''5'') 1000"
    using wait_is_header_or_backoff[of 0 _ "\<lambda>_. http_failure 429 [(''retry-after'', ''5'')]" demo_client, OF a] r
    by (simp add: http_failure_def)
  moreover have "sleeps (request demo_client (always (Rejected (http_failure 500 [])))) ! 1 = Num (300 * 2 ^ 1)"
    using wait_is_header_or_backoff[of 1 _ "\<lambda>_. http_failure 500 []" demo_client, OF b] r
    by (simp add: http_failure_def)
  moreover have "js_times (parseInt ''5'') 1000 = Num 5000" by code_simp
  ultimately show ?thesis by simp
qed

text \<open>
  Claim C1 as stated fails: a 503 response (not a 429) that carries \<open>retry-after: 5\<close> makes
  the executor wait 5000 ms, not the backoff \<open>300 * 2^0 = 300\<close> ms.
\<close>

theorem wait_uses_header_on_503:
  "isRetryable (http_failure 503 [(''retry-after'', ''5'')])
   \<and> int 0 < retries demo_client
   \<and> map_option status (ax_response (http_failure 503 [(''retry-after'', ''5'')])) = Some 503
   \<and> sleeps (request demo_client
         (always (Rejected (http_failure 503 [(''retry-after'', ''5'')])))) ! 0 = Num 5000
   \<and> sleeps (request demo_client
         (always (Rejected (http_failure 503 [(''retry-after'', ''5'')])))) ! 0
       \<noteq> Num (retryDelay demo_client * 2 ^ 0)"
  by code_simp

text \<open>
  Claim C2.  A failed call is classified retryable exactly when it has no response, or
  its status is 429, or its status is at least 500 and below 600.  When the calls before
  call \<open>k\<close> failed retryably and call \<open>k\<close> fails, a further call is made exactly when
  retries remain and the failure is retryable; for any other 4xx status the executor
  stops after call \<open>k\<close> and throws the classified error.
\<close>

theorem retryable_classification:
  assumes "\<forall>i<k. transport i = Rejected (es i) \<and> isRetryable (es i)"
    and "int k \<le> retries c" and "transport k = Rejected e"
  shows "(isRetryable e \<longleftrightarrow>
            ax_response e = None \<or>
            (\<exists>r. ax_response e = Some r \<and> (status r = 429 \<or> (500 \<le> status r \<and> status r < 600))))
     \<and> (Suc k < attempts (request c transport) \<longleftrightarrow> int k < retries c \<and> isRetryable e)
     \<and> (\<forall>r. ax_response e = Some r \<longrightarrow> 400 \<le> status r \<longrightarrow> status r < 500 \<longrightarrow> status r \<noteq> 429 \<longrightarrow>
            attempts (request c transport) = Suc k
          \<and> result (request c transport) = Inl (Sdk (parseApiError e)))"
proof -
  have pre: "\<forall>i. 0 \<le> i \<and> i < k \<longrightarrow> transport i = Rejected (es i) \<and> isRetryable (es i)"
    using assms(1) by simp
  from loop_reaches[OF pre assms(2), of None "[]"]
  obtain le' sl where a: "request c transport = request_loop c transport k le' sl"
    by (auto simp: request_def)
  have cls: "isRetryable e \<longleftrightarrow>
            ax_response e = None \<or>
            (\<exists>r. ax_response e = Some r \<and> (status r = 429 \<or> (500 \<le> status r \<and> status r < 600)))"
    by (auto simp: isRetryable_def split: option.splits)
  have stop: "request c transport = throw_parsed (Some e) (Suc k) sl"
    if "\<not> (int k < retries c \<and> isRetryable e)"
    using that a assms(2,3) by (simp add: loop_stop)
  have go: "Suc k < attempts (request c transport)" if h: "int k < retries c \<and> isRetryable e"
  proof -
    have "request c transport
       = request_loop c transport (Suc k) (Some e) (sl @ [wait_before_retry c k e])"
      using h a assms(3) by (simp add: loop_retry)
    moreover have "int (Suc k) \<le> retries c" using h by simp
    ultimately show ?thesis
      using loop_attempts_gt[of "Suc k" c transport "Some e" "sl @ [wait_before_retry c k e]"]
      by simp
  qed
  have retried: "Suc k < attempts (request c transport) \<longleftrightarrow> int k < retries c \<and> isRetryable e"
  proof (cases "int k < retries c \<and> isRetryable e")
    case True
    then show ?thesis using go by simp
  next
    case False
    then have "attempts (request c transport) = Suc k"
      using stop by (simp add: throw_parsed_def)
    with False show ?thesis by simp
  qed
  have never: "attempts (request c transport) = Suc k
          \<and> result (request c transport) = Inl (Sdk (parseApiError e))"
    if "ax_response e = Some r" "400 \<le> status r" "status r < 500" "status r \<noteq> 429" for r
  proof -
    have "\<not> isRetryable e" using that by (simp add: isRetryable_def)
    then show ?thesis using stop by (simp add: throw_parsed_def)
  qed
  show ?thesis using cls retried never by blast
qed

theorem retryable_classification_witness:
  "\<not> isRetryable (http_failure 404 [])
   \<and> attempts (request demo_client
         (script [Rejected (http_failure 503 [])] (Rejected (http_failure 404 [])))) = 2
   \<and> isRetryable (http_failure 503 [])
   \<and> 1 < attempts (request demo_client (always (Rejected (http_failure 503 []))))"
proof -
  have r: "int 1 \<le> retries demo_client" "int 0 \<le> retries demo_client"
      "int 0 < retries demo_client"
    by (simp_all add: demo_client_def ApiClient_new_def)
  have s503: "ax_response (http_failure 503 [])
                = Some \<lparr> status = 503, headers = [], data = None \<rparr>"
    and s404: "ax_response (http_failure 404 [])
                = Some \<lparr> status = 404, headers = [], data = None \<rparr>"
    by (simp_all add: http_failure_def)
  have retry503: "isRetryable (http_failure 503 [])"
    by (simp add: isRetryable_def s503)
  have before: "\<forall>i<1. script [Rejected (http_failure 503 [])] (Rejected (http_failure 404 [])) i
                   = Rejected (http_failure 503 []) \<and> isRetryable (http_failure 503 [])"
    using retry503 by (simp add: script_def)
  have at1: "script [Rejected (http_failure 503 [])] (Rejected (http_failure 404 [])) 1
               = Rejected (http_failure 404 [])"
    by (simp add: script_def)
  have none: "\<forall>i<0::nat. always (Rejected (http_failure 503 [])) i
                   = Rejected (http_failure 503 []) \<and> isRetryable (http_failure 503 [])"
    by simp
  have at0: "always (Rejected (http_failure 503 [])) 0 = Rejected (http_failure 503 [])"
    by (simp add: always_def)
  have a: "\<not> isRetryable (http_failure 404 [])
      \<and> attempts (request demo_client
           (script [Rejected (http_failure 503 [])] (Rejected (http_failure 404 [])))) = 2"
    using retryable_classification
            [of 1 "script [Rejected (http_failure 503 [])] (Rejected (http_failure 404 []))"
                "\<lambda>i. http_failure 503 []" demo_client "http_failure 404 []",
             OF before r(1) at1] s404
    by simp
  have b: "1 < attempts (request demo_client (always (Rejected (http_failure 503 []))))"
    using retryable_classification
            [of 0 "always (Rejected (http_failure 503 []))"
                "\<lambda>i. http_failure 503 []" demo_client "http_failure 503 []",
             OF none r(2) at0] retry503 r(3)
    by simp
  show ?thesis using a b retry503 by simp
qed

text \<open>
  Claim C3.  With \<open>retries = 2\<close> and \<open>retryDelay = 300\<close>, against a transport that rejects
  every call with a response of status 500, the executor makes exactly 3 calls and throws
  a \<open>RevMaxApiError\<close> whose status code is 500.
\<close>

theorem exhausted_retries_500:
  assumes "retries c = 2" and "retryDelay c = 300"
    and "\<forall>n. \<exists>e r. transport n = Rejected e \<and> ax_response e = Some r \<and> status r = 500"
  shows "attempts (request c transport) = 3
     \<and> (\<exists>err. result (request c transport) = Inl (Sdk err)
            \<and> e_name err = RevMaxApiError \<and> e_statusCode err = Some 500)"
proof -
  from assms(3) obtain es where es: "\<And>n. transport n = Rejected (es n)"
      "\<And>n. \<exists>r. ax_response (es n) = Some r \<and> status r = 500"
    by metis
  have rt: "isRetryable (es n)" for n
  proof -
    obtain r where "ax_response (es n) = Some r" "status r = 500" using es(2) by blast
    then show ?thesis by (simp add: isRetryable_def)
  qed
  have pre: "\<forall>i. 0 \<le> i \<and> i < 2 \<longrightarrow> transport i = Rejected (es i) \<and> isRetryable (es i)"
    using es(1) rt by simp
  from loop_reaches[OF pre, of c None "[]"] assms(1)
  obtain le' sl where a: "request c transport = request_loop c transport 2 le' sl"
    by (auto simp: request_def)
  have "request c transport = throw_parsed (Some (es 2)) 3 sl"
    using a assms(1) es(1)[of 2] loop_stop[of 2 c transport "es 2" le' sl] by simp
  moreover obtain r where "ax_response (es 2) = Some r" "status r = 500" using es(2) by blast
  then have "e_name (parseApiError (es 2)) = RevMaxApiError \<and> e_statusCode (parseApiError (es 2)) = Some 500"
    by (simp add: parseApiError_def Let_def RevMaxApiError_new_def RevMaxError_new_def)
  ultimately show ?thesis by (simp add: throw_parsed_def)
qed

theorem exhausted_retries_500_witness:
  "attempts (request demo_client (always (Rejected (http_failure 500 [])))) = 3
     \<and> (\<exists>err. result (request demo_client (always (Rejected (http_failure 500 [])))) = Inl (Sdk err)
            \<and> e_name err = RevMaxApiError \<and> e_statusCode err = Some 500)"
proof -
  have "\<forall>n. \<exists>e r. always (Rejected (http_failure 500 [])) n = Rejected e
            \<and> ax_response e = Some r \<and> status r = 500"
    by (simp add: always_def http_failure_def)
  moreover have "retries demo_client = 2" "retryDelay demo_client = 300"
    by (simp_all add: demo_client_def ApiClient_new_def)
  ultimately show ?thesis using exhausted_retries_500[of demo_client] by blast
qed

section \<open>Properties of the authenticator\<close>

lemma prefix_length: "length REVX_API_KEY_PREFIX = 8"
  by (simp add: REVX_API_KEY_PREFIX_def)

lemma ApiKeyAuth_new_rejects:
  assumes "key = [] \<or> \<not> prefix REVX_API_KEY_PREFIX key \<or> length key < 8 + 16"
  shows "\<exists>e. ApiKeyAuth_new key = Inl e \<and> e_name e = RevMaxAuthenticationError"
proof -
  have "e_name (RevMaxAuthenticationError_new m md) = RevMaxAuthenticationError" for m md
    by (simp add: RevMaxAuthenticationError_new_def RevMaxError_new_def)
  then show ?thesis
    using assms unfolding ApiKeyAuth_new_def prefix_length by auto
qed

lemma ApiKeyAuth_new_accepts:
  assumes "\<not> (key = [] \<or> \<not> prefix REVX_API_KEY_PREFIX key \<or> length key < 8 + 16)"
  shows "ApiKeyAuth_new key = Inr \<lparr> apiKey = key, verified = False \<rparr>"
  using assms unfolding ApiKeyAuth_new_def prefix_length by simp

text \<open>
  Claim C5.  The constructor of \<open>ApiKeyAuth\<close> throws, and what it throws is a
  \<open>RevMaxAuthenticationError\<close>, exactly when the key is empty, does not start with
  \<open>revx_pk_\<close>, or has fewer than 8 + 16 characters.  Every other key is accepted, and
  \<open>getHeaders\<close> of the object built from it is the mapping with the single entry
  \<open>revx-api-key\<close>, whose value is the key.
\<close>

theorem ApiKeyAuth_validation:
  "((key = [] \<or> \<not> prefix ''revx_pk_'' key \<or> length key < 8 + 16) \<longrightarrow>
      (\<exists>e. ApiKeyAuth_new key = Inl e \<and> e_name e = RevMaxAuthenticationError))
   \<and> (\<not> (key = [] \<or> \<not> prefix ''revx_pk_'' key \<or> length key < 8 + 16) \<longrightarrow>
      (\<exists>a. ApiKeyAuth_new key = Inr a \<and> apiKey a = key \<and> \<not> verified a
           \<and> getHeaders a = [''revx-api-key'' \<mapsto> key]
           \<and> dom (getHeaders a) = {''revx-api-key''}))"
proof -
  have p: "prefix ''revx_pk_'' key = prefix REVX_API_KEY_PREFIX key"
    by (simp only: REVX_API_KEY_PREFIX_def)
  have h: "getHeaders \<lparr> apiKey = key, verified = False \<rparr> = [''revx-api-key'' \<mapsto> key]"
    by (simp add: getHeaders_def)
  have d: "dom [''revx-api-key'' \<mapsto> key] = {''revx-api-key''}" by simp
  show ?thesis
    unfolding p using ApiKeyAuth_new_rejects[of key] ApiKeyAuth_new_accepts[of key] h d
    by (metis ApiKeyAuth.select_convs(1) ApiKeyAuth.select_convs(2))
qed

theorem ApiKeyAuth_validation_witness:
  "(\<exists>a. ApiKeyAuth_new ''revx_pk_0123456789abcdef'' = Inr a
        \<and> getHeaders a = [''revx-api-key'' \<mapsto> ''revx_pk_0123456789abcdef''])
   \<and> (\<exists>e. ApiKeyAuth_new ''revx_pk_0123456789abcde'' = Inl e \<and> e_name e = RevMaxAuthenticationError)
   \<and> (\<exists>e. ApiKeyAuth_new ''sk_live_0123456789abcdef0123'' = Inl e \<and> e_name e = RevMaxAuthenticationError)"
proof -
  have ok: "\<not> (''revx_pk_0123456789abcdef'' = [] \<or> \<not> prefix ''revx_pk_'' ''revx_pk_0123456789abcdef''
            \<or> length ''revx_pk_0123456789abcdef'' < 8 + 16)" by simp
  have short: "length ''revx_pk_0123456789abcde'' < 8 + 16" by simp
  have other: "\<not> prefix ''revx_pk_'' ''sk_live_0123456789abcdef0123''" by simp
  have a: "\<exists>a. ApiKeyAuth_new ''revx_pk_0123456789abcdef'' = Inr a
        \<and> getHeaders a = [''revx-api-key'' \<mapsto> ''revx_pk_0123456789abcdef'']"
    using ApiKeyAuth_validation [of "''revx_pk_0123456789abcdef''"] ok by blast
  have b: "\<exists>e. ApiKeyAuth_new ''revx_pk_0123456789abcde'' = Inl e \<and> e_name e = RevMaxAuthenticationError"
    using ApiKeyAuth_validation [of "''revx_pk_0123456789abcde''"] short by blast
  have c: "\<exists>e. ApiKeyAuth_new ''sk_live_0123456789abcdef0123'' = Inl e \<and> e_name e = RevMaxAuthenticationError"
    using ApiKeyAuth_validation [of "''sk_live_0123456789abcdef0123''"] other by blast
  show ?thesis using a b c by blast
qed

section \<open>Properties of the handshake\<close>

text \<open>What \<open>request\<close> throws is a \<open>TypeError\<close> or the classifier's error, and the classifier
  never builds an error whose \<open>statusCode\<close> field is 401: for a 401 response it builds a
  \<open>RevMaxAuthenticationError\<close>, a class without that field.  So the status that the
  \<open>catch\<close> block of \<open>connect\<close> reads is never 401, and every failure of \<open>connect\<close>, the one
  on a 401 response included, is a \<open>RevMaxInitializationError\<close>.\<close>

lemma loop_result_shape:
  "(\<exists>r. result (request_loop c transport retry le0 sl) = Inr r)
   \<or> (\<exists>m. result (request_loop c transport retry le0 sl) = Inl (TypeError m))
   \<or> (\<exists>e. result (request_loop c transport retry le0 sl) = Inl (Sdk (parseApiError e)))"
proof (induction c transport retry le0 sl rule: request_loop.induct)
  case (1 c transport retry lastError slept)
  show ?case
  proof (cases "int retry \<le> retries c")
    case False
    then show ?thesis
      by (cases lastError) (auto simp: request_loop.simps throw_parsed_def)
  next
    case le: True
    show ?thesis
    proof (cases "transport retry")
      case (Resolved r)
      with le show ?thesis by (simp add: loop_resolved)
    next
      case (Rejected e)
      show ?thesis
      proof (cases "int retry < retries c \<and> isRetryable e")
        case True
        with 1[OF le Rejected] Rejected show ?thesis by (simp add: loop_retry)
      next
        case False
        with le Rejected have "request_loop c transport retry lastError slept
            = throw_parsed (Some e) (Suc retry) slept" by (simp add: loop_stop)
        then show ?thesis by (auto simp: throw_parsed_def)
      qed
    qed
  qed
qed

lemma parseApiError_never_401: "e_statusCode (parseApiError e) \<noteq> Some 401"
  by (auto simp: parseApiError_def Let_def RevMaxAuthenticationError_new_def
      RevMaxRateLimitError_new_def RevMaxValidationError_new_def RevMaxApiError_new_def
      RevMaxError_new_def split: option.splits)

lemma request_status_not_401:
  assumes "result (request c transport) = Inl th"
  shows "thrown_statusCode th \<noteq> Some 401"
proof -
  from loop_result_shape[of c transport 0 None "[]"] assms
  consider m where "th = TypeError m" | e where "th = Sdk (parseApiError e)"
    by (auto simp: request_def)
  then show ?thesis
  proof cases
    case 1
    then show ?thesis by (simp add: thrown_statusCode_def)
  next
    case 2
    then show ?thesis
      using parseApiError_never_401[of e]
      by (auto simp: thrown_statusCode_def split: option.splits)
  qed
qed

lemma connect_catch_name:
  "e_name (connect_catch th)
     = (if thrown_statusCode th = Some 401 then RevMaxAuthenticationError
        else RevMaxInitializationError)"
  by (simp add: connect_catch_def Let_def RevMaxAuthenticationError_new_def
        RevMaxInitializationError_new_def RevMaxError_new_def)

lemma connect_never_authentication:
  assumes "connect transport cl = Inl e"
  shows "e_name e = RevMaxInitializationError"
proof (cases "ApiClient_get (apiClient cl) transport")
  case (Inl th)
  then have "result (request (apiClient cl) transport) = Inl th"
    by (simp add: ApiClient_get_def split: sum.splits)
  then have "thrown_statusCode th \<noteq> Some 401" by (rule request_status_not_401)
  moreover have "e = connect_catch th" using assms Inl by (simp add: connect_def)
  ultimately show ?thesis by (simp add: connect_catch_name)
next
  case (Inr res)
  then have "e = connect_catch (Sdk (RevMaxInitializationError_new
                ''Unexpected response format from API key verification'' NoMetadata))"
    using assms by (simp add: connect_def split: if_splits)
  then show ?thesis
    by (simp add: connect_catch_name thrown_statusCode_def RevMaxInitializationError_new_def
          RevMaxError_new_def)
qed

lemma connect_401:
  assumes "0 \<le> retries (apiClient cl)" "transport 0 = Rejected e"
     "ax_response e = Some r" "status r = 401"
  shows "\<exists>err. connect transport cl = Inl err \<and> e_name err = RevMaxInitializationError"
proof -
  have "\<not> isRetryable e" using assms(3,4) by (simp add: isRetryable_def)
  then have "request (apiClient cl) transport = throw_parsed (Some e) (Suc 0) []"
    using assms(1,2) by (simp add: request_def loop_stop)
  then show ?thesis
    using connect_never_authentication[of transport cl]
    by (auto simp: connect_def ApiClient_get_def throw_parsed_def)
qed

text \<open>
  Claim C4, as amended.  When the verification call succeeds, \<open>connect\<close> fails with a
  \<open>RevMaxInitializationError\<close>, which is not a \<open>RevMaxAuthenticationError\<close>, whenever the
  body is missing, has no organization object, or the organization has no id or an empty
  one; whenever the organization has a non-empty id, with or without a name, \<open>connect\<close>
  succeeds, stores the organization and marks the key verified.
\<close>

theorem connect_body_check:
  assumes "0 \<le> retries (apiClient cl)" and "transport 0 = Resolved r"
  shows "((data r = None
          \<or> (\<exists>d. data r = Some d \<and> data_organization d = None)
          \<or> (\<exists>d org. data r = Some d \<and> data_organization d = Some org
                \<and> (org_id org = None \<or> org_id org = Some [])))
         \<longrightarrow> (\<exists>err. connect transport cl = Inl err \<and> e_name err = RevMaxInitializationError
                  \<and> e_name err \<noteq> RevMaxAuthenticationError))
     \<and> (\<forall>d org i. data r = Some d \<and> data_organization d = Some org \<and> org_id org = Some i \<and> i \<noteq> []
         \<longrightarrow> connect transport cl
               = Inr (cl\<lparr> orgInfo := Some org, auth := (auth cl)\<lparr> verified := True \<rparr> \<rparr>))"
proof -
  have "request (apiClient cl) transport = \<lparr> result = Inr r, attempts = Suc 0, sleeps = [] \<rparr>"
    using assms by (simp add: request_def loop_resolved)
  then have g: "ApiClient_get (apiClient cl) transport = Inr (data r)"
    by (simp add: ApiClient_get_def)
  have bad: "\<exists>err. connect transport cl = Inl err \<and> e_name err = RevMaxInitializationError
                  \<and> e_name err \<noteq> RevMaxAuthenticationError"
    if "bad_verify_body (data r)"
    using that g
    by (simp add: connect_def connect_catch_name thrown_statusCode_def
          RevMaxInitializationError_new_def RevMaxError_new_def)
  have good: "connect transport cl
               = Inr (cl\<lparr> orgInfo := Some org, auth := (auth cl)\<lparr> verified := True \<rparr> \<rparr>)"
    if "data r = Some d" "data_organization d = Some org" "org_id org = Some i" "i \<noteq> []"
    for d org i
    using that g by (simp add: connect_def bad_verify_body_def setVerified_def)
  have "bad_verify_body (data r)"
    if "data r = None
          \<or> (\<exists>d. data r = Some d \<and> data_organization d = None)
          \<or> (\<exists>d org. data r = Some d \<and> data_organization d = Some org
                \<and> (org_id org = None \<or> org_id org = Some []))"
    using that by (auto simp: bad_verify_body_def)
  with bad good show ?thesis by blast
qed

theorem connect_body_check_witness:
  "(\<exists>err. connect (always (Resolved (verify_response (Some \<lparr> org_id = None, org_name = Some ''Acme'' \<rparr>))))
        demo_facade = Inl err \<and> e_name err = RevMaxInitializationError)
   \<and> connect (always (Resolved (verify_response (Some \<lparr> org_id = Some ''org_1'', org_name = Some ''Acme'' \<rparr>))))
        demo_facade
     = Inr (demo_facade\<lparr> orgInfo := Some \<lparr> org_id = Some ''org_1'', org_name = Some ''Acme'' \<rparr>,
                         auth := (auth demo_facade)\<lparr> verified := True \<rparr> \<rparr>)"
proof -
  have r: "0 \<le> retries (apiClient demo_facade)" by (simp add: demo_facade_def ApiClient_new_def)
  have t: "always (Resolved resp) 0 = Resolved resp" for resp by (simp add: always_def)
  have d: "data (verify_response org) = Some (empty_data\<lparr> data_organization := org \<rparr>)" for org
    by (simp add: verify_response_def)
  show ?thesis
    using connect_body_check [of demo_facade "always (Resolved (verify_response (Some \<lparr> org_id = None, org_name = Some ''Acme'' \<rparr>)))"
               "verify_response (Some \<lparr> org_id = None, org_name = Some ''Acme'' \<rparr>)", OF r t]
      connect_body_check [of demo_facade "always (Resolved (verify_response (Some \<lparr> org_id = Some ''org_1'', org_name = Some ''Acme'' \<rparr>)))"
               "verify_response (Some \<lparr> org_id = Some ''org_1'', org_name = Some ''Acme'' \<rparr>)", OF r t]
    by (auto simp: d empty_data_def)
qed

text \<open>
  Claim C4 as stated fails: a body whose organization object has an id and no name is
  accepted, and \<open>connect\<close> succeeds.
\<close>

theorem connect_accepts_missing_name:
  "org_name \<lparr> org_id = Some ''org_1'', org_name = None \<rparr> = None
   \<and> connect (always (Resolved (verify_response (Some \<lparr> org_id = Some ''org_1'', org_name = None \<rparr>))))
        demo_facade
     = Inr (demo_facade\<lparr> orgInfo := Some \<lparr> org_id = Some ''org_1'', org_name = None \<rparr>,
                         auth := (auth demo_facade)\<lparr> verified := True \<rparr> \<rparr>)"
  by code_simp

section \<open>Properties of path normalisation\<close>

text \<open>Both replacements start a match at a slash only and never read past the next slash,
  so each works on one segment at a time.\<close>

lemma not_digit_slash: "\<not> is_digit CHR ''/''" by (simp add: is_digit_def)
lemma not_digit_colon: "\<not> is_digit CHR '':''" by (simp add: is_digit_def)

lemma uuid_body_length: "length uuid_body = 36" by (simp add: uuid_body_def)

lemma uuid_body_no_slash: "\<forall>p \<in> set uuid_body. \<not> p CHR ''/''"
  by (simp add: uuid_body_def is_hex_def dash_def)

lemma match_classes_length: "match_classes ps s \<Longrightarrow> length ps \<le> length s"
  by (induction ps s rule: match_classes.induct) auto

lemma match_classes_nth:
  "match_classes (ps @ q # qs) s \<Longrightarrow> length ps < length s \<and> q (s ! length ps)"
proof (induction ps arbitrary: s)
  case Nil
  then show ?case by (cases s) auto
next
  case (Cons p ps)
  then show ?case by (cases s) auto
qed

lemma match_classes_segment:
  assumes "\<forall>p \<in> set ps. \<not> p CHR ''/''" and "rest = [] \<or> hd rest = CHR ''/''"
  shows "match_classes ps (s @ rest) = match_classes ps s"
  using assms(1)
proof (induction ps arbitrary: s)
  case Nil
  show ?case by simp
next
  case (Cons p ps)
  show ?case
  proof (cases s)
    case Nil
    show ?thesis
    proof (cases rest)
      case Nil
      with \<open>s = []\<close> show ?thesis by simp
    next
      case (Cons r rs)
      with assms(2) have "r = CHR ''/''" by simp
      with Cons.prems have "\<not> p r" by simp
      with \<open>s = []\<close> Cons show ?thesis by simp
    qed
  next
    case (Cons c cs)
    have "match_classes ps (cs @ rest) = match_classes ps cs"
      using Cons.IH[of cs] Cons.prems by auto
    with Cons show ?thesis by simp
  qed
qed

lemma replace_uuids_plain:
  "CHR ''/'' \<notin> set t \<Longrightarrow> replace_uuids (t @ rest) = t @ replace_uuids rest"
  by (induction t) (auto simp: uuid_regex_def slash_def)

lemma replace_uuids_segment:
  assumes "CHR ''/'' \<notin> set s" and "rest = [] \<or> hd rest = CHR ''/''"
  shows "replace_uuids (CHR ''/'' # s @ rest) = CHR ''/'' # uuid_step s @ replace_uuids rest"
proof (cases "match_classes uuid_body s")
  case True
  then have m: "match_classes uuid_regex (CHR ''/'' # s @ rest)"
    using match_classes_segment[OF uuid_body_no_slash assms(2), of s]
    by (simp add: uuid_regex_def slash_def)
  have "36 \<le> length s" using match_classes_length[OF True] uuid_body_length by simp
  then have d: "drop 37 (CHR ''/'' # s @ rest) = drop 36 s @ rest" by simp
  have "CHR ''/'' \<notin> set (drop 36 s)" using assms(1) by (auto dest: in_set_dropD)
  then have "replace_uuids (drop 36 s @ rest) = drop 36 s @ replace_uuids rest"
    by (rule replace_uuids_plain)
  with m d True show ?thesis by (simp add: uuid_step_def)
next
  case False
  then have "\<not> match_classes uuid_regex (CHR ''/'' # s @ rest)"
    using match_classes_segment[OF uuid_body_no_slash assms(2), of s]
    by (simp add: uuid_regex_def slash_def)
  with False assms(1) show ?thesis by (simp add: uuid_step_def replace_uuids_plain)
qed

lemma join_path_Cons: "join_path (s # segs) = CHR ''/'' # s @ join_path segs"
  by (simp add: join_path_def)

lemma join_path_hd: "join_path segs = [] \<or> hd (join_path segs) = CHR ''/''"
  by (cases segs) (simp_all add: join_path_def)

lemma replace_uuids_join:
  "\<forall>s \<in> set segs. CHR ''/'' \<notin> set s \<Longrightarrow>
   replace_uuids (join_path segs) = join_path (map uuid_step segs)"
proof (induction segs)
  case Nil
  show ?case by (simp add: join_path_def)
next
  case (Cons s segs)
  then show ?case
    using replace_uuids_segment[of s "join_path segs"] join_path_hd[of segs]
    by (simp add: join_path_Cons)
qed

lemma replace_numeric_plain:
  "CHR ''/'' \<notin> set t \<Longrightarrow> replace_numeric (t @ rest) = t @ replace_numeric rest"
  by (induction t) (auto simp: Let_def)

lemma takeWhile_digit_rest:
  "rest = [] \<or> hd rest = CHR ''/'' \<Longrightarrow> takeWhile is_digit rest = []"
  by (cases rest) (auto simp: not_digit_slash)

lemma replace_numeric_keep:
  assumes "\<not> (c = CHR ''/'' \<and> takeWhile is_digit cs \<noteq> []
             \<and> (dropWhile is_digit cs = [] \<or> hd (dropWhile is_digit cs) = CHR ''/''))"
  shows "replace_numeric (c # cs) = c # replace_numeric cs"
proof -
  have "replace_numeric (c # cs) =
     (if c = CHR ''/'' \<and> takeWhile is_digit cs \<noteq> []
           \<and> (dropWhile is_digit cs = [] \<or> hd (dropWhile is_digit cs) = CHR ''/'')
      then ''/:id'' @ replace_numeric (dropWhile is_digit cs)
      else c # replace_numeric cs)"
    by (simp only: replace_numeric.simps Let_def)
  with assms show ?thesis by (simp only: if_False)
qed

lemma replace_numeric_segment:
  assumes "CHR ''/'' \<notin> set s" and "rest = [] \<or> hd rest = CHR ''/''"
  shows "replace_numeric (CHR ''/'' # s @ rest) = CHR ''/'' # numeric_step s @ replace_numeric rest"
proof (cases "numeric_segment s")
  case True
  then have all: "\<forall>c \<in> set s. is_digit c" and ne: "s \<noteq> []" by (simp_all add: numeric_segment_def)
  have t: "takeWhile is_digit (s @ rest) = s"
    using all takeWhile_digit_rest[OF assms(2)] by (simp add: takeWhile_append2)
  have d: "dropWhile is_digit (s @ rest) = rest"
    using all assms(2) by (cases rest) (auto simp: dropWhile_append2 not_digit_slash)
  show ?thesis using True t d ne assms(2) by (simp add: numeric_step_def Let_def)
next
  case False
  have keep: "replace_numeric (CHR ''/'' # s @ rest) = CHR ''/'' # replace_numeric (s @ rest)"
  proof (cases "s = []")
    case True
    then show ?thesis using takeWhile_digit_rest[OF assms(2)] by (simp add: Let_def)
  next
    case ne: False
    with False obtain c where c: "c \<in> set s" "\<not> is_digit c" by (auto simp: numeric_segment_def)
    then have dw: "dropWhile is_digit (s @ rest) = dropWhile is_digit s @ rest"
      by (simp add: dropWhile_append1)
    have nn: "dropWhile is_digit s \<noteq> []" using c by (simp add: dropWhile_eq_Nil_conv) blast
    then have "hd (dropWhile is_digit s) \<in> set s"
      by (metis hd_in_set set_dropWhileD)
    with assms(1) have "hd (dropWhile is_digit s) \<noteq> CHR ''/''" by auto
    with nn have "dropWhile is_digit s @ rest \<noteq> []"
        "hd (dropWhile is_digit s @ rest) \<noteq> CHR ''/''" by simp_all
    with dw have "\<not> (CHR ''/'' = CHR ''/'' \<and> takeWhile is_digit (s @ rest) \<noteq> []
             \<and> (dropWhile is_digit (s @ rest) = []
                  \<or> hd (dropWhile is_digit (s @ rest)) = CHR ''/''))"
      by (simp only: not_False_eq_True simp_thms)
    then show ?thesis by (rule replace_numeric_keep)
  qed
  with False assms(1) show ?thesis by (simp add: numeric_step_def replace_numeric_plain)
qed

lemma replace_numeric_join:
  "\<forall>s \<in> set segs. CHR ''/'' \<notin> set s \<Longrightarrow>
   replace_numeric (join_path segs) = join_path (map numeric_step segs)"
proof (induction segs)
  case Nil
  show ?case by (simp add: join_path_def)
next
  case (Cons s segs)
  then show ?case
    using replace_numeric_segment[of s "join_path segs"] join_path_hd[of segs]
    by (simp add: join_path_Cons)
qed

lemma uuid_step_no_slash: "CHR ''/'' \<notin> set s \<Longrightarrow> CHR ''/'' \<notin> set (uuid_step s)"
  by (auto simp: uuid_step_def dest: in_set_dropD)

lemma numeric_step_no_slash: "CHR ''/'' \<notin> set s \<Longrightarrow> CHR ''/'' \<notin> set (numeric_step s)"
  by (auto simp: numeric_step_def)

lemma normalizePath_join:
  assumes "\<forall>s \<in> set segs. CHR ''/'' \<notin> set s"
  shows "normalizePath (join_path segs) = join_path (map (numeric_step \<circ> uuid_step) segs)"
proof (cases segs)
  case Nil
  then show ?thesis by (simp add: normalizePath_def join_path_def)
next
  case (Cons s ss)
  then have h: "join_path segs \<noteq> []" "hd (join_path segs) = CHR ''/''"
    by (simp_all add: join_path_Cons)
  have "\<forall>s \<in> set (map uuid_step segs). CHR ''/'' \<notin> set s"
    using assms by (auto simp: uuid_step_no_slash)
  then have "replace_numeric (join_path (map uuid_step segs))
      = join_path (map numeric_step (map uuid_step segs))" by (rule replace_numeric_join)
  then show ?thesis using h replace_uuids_join[OF assms] by (simp add: normalizePath_def)
qed

lemma uuid_shaped_step: "uuid_shaped s \<Longrightarrow> numeric_step (uuid_step s) = '':id''"
  by (simp add: uuid_shaped_def uuid_step_def numeric_step_def numeric_segment_def not_digit_colon)

lemma numeric_not_uuid: "numeric_segment s \<Longrightarrow> \<not> match_classes uuid_body s"
proof
  assume n: "numeric_segment s" and m: "match_classes uuid_body s"
  from m have "match_classes (replicate 8 is_hex @ dash # (replicate 4 is_hex @ dash #
     replicate 4 is_hex @ dash # replicate 4 is_hex @ dash # replicate 12 is_hex)) s"
    unfolding uuid_body_def .
  from match_classes_nth[OF this]
  have len: "8 < length s" and d: "dash (s ! 8)" by simp_all
  from d have "s ! 8 = CHR ''-''" by (simp add: dash_def)
  moreover from len have "s ! 8 \<in> set s" by (rule nth_mem)
  ultimately have "CHR ''-'' \<in> set s" by simp
  with n have "is_digit CHR ''-''" by (auto simp: numeric_segment_def)
  then show False by (simp add: is_digit_def)
qed

lemma numeric_segment_step: "numeric_segment s \<Longrightarrow> numeric_step (uuid_step s) = '':id''"
  by (simp add: numeric_not_uuid uuid_step_def numeric_step_def)

text \<open>
  Claim C9.  Write a path as its segments, each behind a slash.  If segment \<open>i\<close> has the
  shape of a UUID or consists of decimal digits only, then the normalised path has the
  same number of segments and its segment \<open>i\<close> is \<open>:id\<close>; a path given without its
  leading slash is normalised like the path with it.  In particular
  \<open>/customers/123e4567-e89b-12d3-a456-426614174000\<close> and \<open>/customers/4821\<close> both become
  \<open>/customers/:id\<close>.
\<close>

theorem normalizePath_replaces_ids:
  assumes "\<forall>s \<in> set segs. CHR ''/'' \<notin> set s" and "i < length segs"
    and "uuid_shaped (segs ! i) \<or> numeric_segment (segs ! i)"
  shows "(\<exists>out. normalizePath (join_path segs) = join_path out
            \<and> length out = length segs
            \<and> (\<forall>s \<in> set out. CHR ''/'' \<notin> set s)
            \<and> out ! i = '':id'')
     \<and> (hd segs \<noteq> [] \<longrightarrow> normalizePath (tl (join_path segs)) = normalizePath (join_path segs))
     \<and> normalizePath ''/customers/123e4567-e89b-12d3-a456-426614174000'' = ''/customers/:id''
     \<and> normalizePath ''/customers/4821'' = ''/customers/:id''"
proof -
  let ?out = "map (numeric_step \<circ> uuid_step) segs"
  have a: "normalizePath (join_path segs) = join_path ?out"
    using assms(1) by (rule normalizePath_join)
  have b: "\<forall>s \<in> set ?out. CHR ''/'' \<notin> set s"
    using assms(1) by (auto simp: uuid_step_no_slash numeric_step_no_slash)
  have c: "?out ! i = '':id''"
    using assms(2,3) uuid_shaped_step numeric_segment_step by auto
  have first: "\<exists>out. normalizePath (join_path segs) = join_path out
            \<and> length out = length segs
            \<and> (\<forall>s \<in> set out. CHR ''/'' \<notin> set s)
            \<and> out ! i = '':id''"
    using a b c by (intro exI[of _ ?out]) simp
  have second: "normalizePath (tl (join_path segs)) = normalizePath (join_path segs)"
    if "hd segs \<noteq> []"
  proof -
    from assms(2) obtain s ss where segs: "segs = s # ss" by (cases segs) auto
    with that assms(1) have s: "s \<noteq> []" "CHR ''/'' \<notin> set s" by auto
    then have "hd s \<noteq> CHR ''/''" by (metis hd_in_set)
    with s segs show ?thesis
      by (simp add: normalizePath_def join_path_Cons)
  qed
  have e1: "normalizePath ''/customers/123e4567-e89b-12d3-a456-426614174000'' = ''/customers/:id''"
    by code_simp
  have e2: "normalizePath ''/customers/4821'' = ''/customers/:id''"
    by code_simp
  show ?thesis using first second e1 e2 by blast
qed

theorem normalizePath_replaces_ids_witness:
  "normalizePath (join_path [''customers'', ''4821'', ''invoices'']) = ''/customers/:id/invoices''
   \<and> normalizePath ''customers/4821/invoices'' = ''/customers/:id/invoices''"
proof -
  have a: "\<forall>s \<in> set [''customers'', ''4821'', ''invoices'']. CHR ''/'' \<notin> set s" by simp
  have b: "1 < length [''customers'', ''4821'', ''invoices'']" by simp
  have c: "uuid_shaped ([''customers'', ''4821'', ''invoices''] ! 1)
           \<or> numeric_segment ([''customers'', ''4821'', ''invoices''] ! 1)"
    by (simp add: numeric_segment_def is_digit_def)
  have d: "hd [''customers'', ''4821'', ''invoices''] \<noteq> []" by simp
  have e: "normalizePath (join_path [''customers'', ''4821'', ''invoices'']) = ''/customers/:id/invoices''"
    by code_simp
  have f: "tl (join_path [''customers'', ''4821'', ''invoices'']) = ''customers/4821/invoices''"
    by (simp add: join_path_def)
  show ?thesis using normalizePath_replaces_ids [OF a b c] d e f by simp
qed

end
